theory Spec2Isabelle
  imports Complex_Main
begin

section \<open>The actor-critic example: numbers\<close>

text \<open>
  The script \<^verbatim>\<open>examples/reinforcement_learning/actor_critic.py\<close> computes with
  Python floats and torch tensors. Finite floats are modelled as exact reals: rounding
  and overflow are not part of the model. A tensor element that the computation can
  make non-finite is a \<open>tfloat\<close>: a finite real, an infinity or NaN, with the IEEE-754
  rules for the operations of finish_episode (signed zeros are left out: a zero is
  \<open>+0\<close>).
\<close>

datatype tfloat = Fin real | PInf | NInf | NaN

fun tneg :: "tfloat \<Rightarrow> tfloat" where
  "tneg (Fin a) = Fin (- a)"
| "tneg PInf = NInf"
| "tneg NInf = PInf"
| "tneg NaN = NaN"

fun tadd :: "tfloat \<Rightarrow> tfloat \<Rightarrow> tfloat" where
  "tadd NaN _ = NaN"
| "tadd _ NaN = NaN"
| "tadd (Fin a) (Fin b) = Fin (a + b)"
| "tadd PInf NInf = NaN"
| "tadd NInf PInf = NaN"
| "tadd PInf _ = PInf"
| "tadd _ PInf = PInf"
| "tadd NInf _ = NInf"
| "tadd _ NInf = NInf"

definition tsub :: "tfloat \<Rightarrow> tfloat \<Rightarrow> tfloat" where
  "tsub a b = tadd a (tneg b)"

fun tdiv :: "tfloat \<Rightarrow> tfloat \<Rightarrow> tfloat" where
  "tdiv NaN _ = NaN"
| "tdiv _ NaN = NaN"
| "tdiv (Fin a) (Fin b) =
     (if b = 0 then (if a = 0 then NaN else if 0 < a then PInf else NInf)
      else Fin (a / b))"
| "tdiv (Fin a) PInf = Fin 0"
| "tdiv (Fin a) NInf = Fin 0"
| "tdiv PInf (Fin b) = (if 0 \<le> b then PInf else NInf)"
| "tdiv NInf (Fin b) = (if 0 \<le> b then NInf else PInf)"
| "tdiv PInf PInf = NaN"
| "tdiv PInf NInf = NaN"
| "tdiv NInf PInf = NaN"
| "tdiv NInf NInf = NaN"

fun tmul :: "tfloat \<Rightarrow> tfloat \<Rightarrow> tfloat" where
  "tmul NaN _ = NaN"
| "tmul _ NaN = NaN"
| "tmul (Fin a) (Fin b) = Fin (a * b)"
| "tmul (Fin a) PInf = (if a = 0 then NaN else if 0 < a then PInf else NInf)"
| "tmul (Fin a) NInf = (if a = 0 then NaN else if 0 < a then NInf else PInf)"
| "tmul PInf (Fin b) = (if b = 0 then NaN else if 0 < b then PInf else NInf)"
| "tmul NInf (Fin b) = (if b = 0 then NaN else if 0 < b then NInf else PInf)"
| "tmul PInf PInf = PInf"
| "tmul PInf NInf = NInf"
| "tmul NInf PInf = NInf"
| "tmul NInf NInf = PInf"

fun tsqrt :: "tfloat \<Rightarrow> tfloat" where
  "tsqrt (Fin a) = (if a < 0 then NaN else Fin (sqrt a))"
| "tsqrt PInf = PInf"
| "tsqrt NInf = NaN"
| "tsqrt NaN = NaN"

text \<open>\<^verbatim>\<open>torch.stack(xs).sum()\<close> of a non-empty list of scalars.\<close>

definition tsum :: "tfloat list \<Rightarrow> tfloat" where
  "tsum xs = foldl tadd (Fin 0) xs"

fun is_finite :: "tfloat \<Rightarrow> bool" where
  "is_finite (Fin a) = True"
| "is_finite PInf = False"
| "is_finite NInf = False"
| "is_finite NaN = False"

section \<open>finish_episode: discounted returns (lines 49-56)\<close>

text \<open>
  \<^verbatim>\<open>
  R = 0
  rewards = []
  for r in model.rewards[::-1]:
      R = r + gamma * R
      rewards.insert(0, R)
  \<close>
  \<open>returns_loop\<close> is the loop: its list argument is what is left of the reversed
  reward trace, \<open>R\<close> the running return and \<open>acc\<close> the list built by \<open>insert(0, R)\<close>.
\<close>

fun returns_loop :: "real \<Rightarrow> real list \<Rightarrow> real \<Rightarrow> real list \<Rightarrow> real list" where
  "returns_loop \<gamma> [] R acc = acc"
| "returns_loop \<gamma> (r # rs) R acc =
     (let R' = r + \<gamma> * R in returns_loop \<gamma> rs R' (R' # acc))"

definition discounted_returns :: "real \<Rightarrow> real list \<Rightarrow> real list" where
  "discounted_returns \<gamma> rs = returns_loop \<gamma> (rev rs) 0 []"

text \<open>The discounted sum of a reward trace, and the returns of all its suffixes.\<close>

fun dsum :: "real \<Rightarrow> real list \<Rightarrow> real" where
  "dsum \<gamma> [] = 0"
| "dsum \<gamma> (r # rs) = r + \<gamma> * dsum \<gamma> rs"

fun suffix_returns :: "real \<Rightarrow> real list \<Rightarrow> real list" where
  "suffix_returns \<gamma> [] = []"
| "suffix_returns \<gamma> (r # rs) = dsum \<gamma> (r # rs) # suffix_returns \<gamma> rs"


section \<open>finish_episode: normalisation (lines 57-58)\<close>

text \<open>
  \<^verbatim>\<open>
  rewards = torch.tensor(rewards)
  rewards = (rewards - rewards.mean()) / (rewards.std() + eps)
  \<close>
  \<open>mean()\<close> divides the sum by the number of elements; \<open>std()\<close> is torch's default,
  the unbiased estimator: the square root of the sum of squared deviations divided by
  \<open>n - 1\<close> (by \<open>0\<close> when the tensor has at most one element). Both divisions are
  IEEE divisions, so \<open>0 / 0\<close> is NaN.
\<close>

definition tensor_mean :: "real list \<Rightarrow> tfloat" where
  "tensor_mean xs = tdiv (Fin (sum_list xs)) (Fin (real (length xs)))"

definition tensor_std :: "real list \<Rightarrow> tfloat" where
  "tensor_std xs =
     (case tensor_mean xs of
        Fin m \<Rightarrow> tsqrt (tdiv (Fin (\<Sum>x\<leftarrow>xs. (x - m)\<^sup>2)) (Fin (real (length xs - 1))))
      | _ \<Rightarrow> NaN)"

definition normalize_returns :: "real list \<Rightarrow> real \<Rightarrow> tfloat list" where
  "normalize_returns xs eps =
     (let m = tensor_mean xs;
          d = tadd (tensor_std xs) (Fin eps)
      in map (\<lambda>x. tdiv (tsub (Fin x) m) d) xs)"

text \<open>A sequence is constant when all its elements are equal.\<close>

fun constant_seq :: "real list \<Rightarrow> bool" where
  "constant_seq [] = True"
| "constant_seq (x # xs) = list_all (\<lambda>y. y = x) xs"

section \<open>Errors\<close>

text \<open>
  The exceptions of the script. A \<open>RuntimeError\<close> carries who raised it: a
  \<^verbatim>\<open>raise\<close> statement of the script itself (\<open>Script\<close>; line 16 is the only one), or
  code inside torch (\<open>Library\<close>). An \<open>AttributeError\<close> is raised by the
  interpreter when a handler reads an attribute of the engine state that no handler
  has set. An error is explicit when a \<^verbatim>\<open>raise\<close> statement of the script raised it.
\<close>

datatype origin = Script | Library

datatype error = RuntimeError origin string | AttributeError string

fun explicit :: "error \<Rightarrow> bool" where
  "explicit (RuntimeError Script msg) = True"
| "explicit (RuntimeError Library msg) = False"
| "explicit (AttributeError name) = False"

section \<open>Policy (lines 19-36)\<close>

text \<open>
  \<open>nn.Linear(n_in, n_out)\<close> holds a weight matrix of \<open>n_out\<close> rows of \<open>n_in\<close>
  entries and a bias of \<open>n_out\<close> entries. Applied to a vector it computes
  \<open>W x + b\<close> and raises when the shapes do not fit.
\<close>

record linear =
  weight :: "real list list"
  bias :: "real list"

definition dot :: "real list \<Rightarrow> real list \<Rightarrow> real" where
  "dot row x = (\<Sum>(w, a)\<leftarrow>zip row x. w * a)"

definition linear_forward :: "linear \<Rightarrow> real list \<Rightarrow> error + real list" where
  "linear_forward l x =
     (if list_all (\<lambda>row. length row = length x) (weight l)
         \<and> length (bias l) = length (weight l)
      then Inr (map (\<lambda>(row, b). dot row x + b) (zip (weight l) (bias l)))
      else Inl (RuntimeError Library ''mat1 and mat2 shapes cannot be multiplied''))"

definition wf_linear :: "nat \<Rightarrow> nat \<Rightarrow> linear \<Rightarrow> bool" where
  "wf_linear n_in n_out l \<longleftrightarrow>
     length (weight l) = n_out \<and> list_all (\<lambda>row. length row = n_in) (weight l)
     \<and> length (bias l) = n_out"

text \<open>\<open>SavedAction\<close>: the log-probability (a scalar) and the value tensor.\<close>

record saved_action =
  log_prob :: real
  "value" :: "real list"

record policy =
  affine1 :: linear
  action_head :: linear
  value_head :: linear
  saved_actions :: "saved_action list"
  rewards :: "real list"

text \<open>
  \<open>Policy.__init__\<close> builds \<open>Linear(4, 128)\<close>, \<open>Linear(128, 2)\<close> and
  \<open>Linear(128, 1)\<close>; \<open>wf_policy\<close> says that the three layers have these shapes.
\<close>

definition wf_policy :: "policy \<Rightarrow> bool" where
  "wf_policy p \<longleftrightarrow>
     wf_linear 4 128 (affine1 p) \<and> wf_linear 128 2 (action_head p)
     \<and> wf_linear 128 1 (value_head p)"

definition relu :: "real list \<Rightarrow> real list" where
  "relu xs = map (max 0) xs"

definition softmax :: "real list \<Rightarrow> real list" where
  "softmax xs = map (\<lambda>x. exp x / (\<Sum>y\<leftarrow>xs. exp y)) xs"

definition forward :: "policy \<Rightarrow> real list \<Rightarrow> error + (real list \<times> real list)" where
  "forward p x =
     (case linear_forward (affine1 p) x of
        Inl e \<Rightarrow> Inl e
      | Inr h \<Rightarrow>
          (case linear_forward (action_head p) (relu h) of
             Inl e \<Rightarrow> Inl e
           | Inr action_scores \<Rightarrow>
               (case linear_forward (value_head p) (relu h) of
                  Inl e \<Rightarrow> Inl e
                | Inr state_values \<Rightarrow> Inr (softmax action_scores, state_values))))"

section \<open>External collaborators\<close>

text \<open>
  The environment (gym), the random sampler of \<open>Categorical\<close>, the optimizer and
  autograd (torch) are not part of the script. They are parameters of the model:
  functions on an environment state \<open>'e\<close>, a random generator state \<open>'g\<close> and an
  optimizer state \<open>'o\<close>. \<open>opt_step\<close> stands for lines 63, 65 and 66: from the
  optimizer state, the policy, the pairs of the loss loop and the loss it gives the
  new optimizer state and the new layers.
\<close>

record ('e, 'g, 'o) deps =
  make_env :: "int \<Rightarrow> 'e"
  env_reset :: "'e \<Rightarrow> real list \<times> 'e"
  env_step :: "'e \<Rightarrow> nat \<Rightarrow> (real list \<times> real \<times> bool) \<times> 'e"
  env_render :: "'e \<Rightarrow> 'e"
  reward_threshold :: real
  manual_seed :: "int \<Rightarrow> 'g"
  new_layers :: "'g \<Rightarrow> (linear \<times> linear \<times> linear) \<times> 'g"
  sample :: "'g \<Rightarrow> real list \<Rightarrow> nat \<times> 'g"
  new_optimizer :: "'o"
  opt_step :: "'o \<Rightarrow> policy \<Rightarrow> (saved_action \<times> tfloat) list \<Rightarrow> tfloat
                 \<Rightarrow> 'o \<times> (linear \<times> linear \<times> linear)"

section \<open>select_action (lines 39-45)\<close>

text \<open>
  The sampler draws the action; \<open>m.log_prob(action)\<close> reads the logarithm of the
  probability at that index and raises when the index is out of range.
\<close>

definition select_action ::
  "('e, 'g, 'o) deps \<Rightarrow> policy \<Rightarrow> 'g \<Rightarrow> real list \<Rightarrow> error + (nat \<times> policy \<times> 'g)" where
  "select_action ext p g obs =
     (case forward p obs of
        Inl e \<Rightarrow> Inl e
      | Inr (probs, observation_value) \<Rightarrow>
          (let (action, g') = sample ext g probs in
           if action < length probs
           then Inr (action,
                     p\<lparr>saved_actions := saved_actions p
                          @ [\<lparr>log_prob = ln (probs ! action), value = observation_value\<rparr>]\<rparr>,
                     g')
           else Inl (RuntimeError Library ''index out of range in gather'')))"

section \<open>finish_episode: losses and update (lines 59-68)\<close>

definition item :: "real list \<Rightarrow> error + real" where
  "item t = (case t of [v] \<Rightarrow> Inr v
             | _ \<Rightarrow> Inl (RuntimeError Library ''a Tensor cannot be converted to Scalar''))"

text \<open>\<open>F.smooth_l1_loss\<close> of a one-element input and target.\<close>

definition smooth_l1_loss :: "real \<Rightarrow> tfloat \<Rightarrow> tfloat" where
  "smooth_l1_loss v r =
     (case tsub (Fin v) r of
        Fin d \<Rightarrow> Fin (if \<bar>d\<bar> < 1 then d\<^sup>2 / 2 else \<bar>d\<bar> - 1 / 2)
      | NaN \<Rightarrow> NaN
      | _ \<Rightarrow> PInf)"

text \<open>The loop of lines 59-62 over \<open>zip(saved_actions, rewards)\<close>.\<close>

fun loss_loop ::
  "(saved_action \<times> tfloat) list \<Rightarrow> tfloat list \<Rightarrow> tfloat list
     \<Rightarrow> error + (tfloat list \<times> tfloat list)" where
  "loss_loop [] policy_losses value_losses = Inr (policy_losses, value_losses)"
| "loss_loop ((sa, r) # ps) policy_losses value_losses =
     (case item (value sa) of
        Inl e \<Rightarrow> Inl e
      | Inr v \<Rightarrow>
          (let reward = tsub r (Fin v) in
           loss_loop ps
             (policy_losses @ [tmul (Fin (- log_prob sa)) reward])
             (value_losses @ [smooth_l1_loss v r])))"

text \<open>
  \<open>torch.stack\<close> raises on an empty list, before the two \<open>del\<close> statements; the
  exception leaves the model as it was.
\<close>

definition finish_episode ::
  "('e, 'g, 'o) deps \<Rightarrow> policy \<Rightarrow> 'o \<Rightarrow> real \<Rightarrow> real \<Rightarrow> error + (policy \<times> 'o)" where
  "finish_episode ext p opt \<gamma> eps =
     (let pairs = zip (saved_actions p) (normalize_returns (discounted_returns \<gamma> (rewards p)) eps) in
      case loss_loop pairs [] [] of
        Inl e \<Rightarrow> Inl e
      | Inr (policy_losses, value_losses) \<Rightarrow>
          if policy_losses = [] \<or> value_losses = []
          then Inl (RuntimeError Library ''stack expects a non-empty TensorList'')
          else
            (let loss = tadd (tsum policy_losses) (tsum value_losses);
                 (opt', (l1, l2, l3)) = opt_step ext opt p pairs loss
             in Inr (p\<lparr>affine1 := l1, action_head := l2, value_head := l3,
                       saved_actions := [], rewards := []\<rparr>, opt')))"

text \<open>
  The policy after a call of finish_episode: the updated policy when the call returns,
  and the policy as it was when the call raises, since every raise comes before
  lines 66-68, the only ones that change the policy.
\<close>

definition after_finish_episode ::
  "('e, 'g, 'o) deps \<Rightarrow> policy \<Rightarrow> 'o \<Rightarrow> real \<Rightarrow> real \<Rightarrow> policy" where
  "after_finish_episode ext p opt \<gamma> eps =
     (case finish_episode ext p opt \<gamma> eps of Inl e \<Rightarrow> p | Inr (p', opt') \<Rightarrow> p')"

section \<open>main: the engine state and the callbacks (lines 75-126)\<close>

text \<open>
  The state that the callbacks of \<open>main\<close> read and write: the variables of \<open>main\<close>
  (model, optimizer, environment), the random generator, the attributes the handlers
  put on \<open>engine.state\<close> (\<open>None\<close> while unset) and the engine's own epoch counter and
  flags. Printing is not modelled.
\<close>

record args =
  gamma :: real
  seed :: int
  render :: bool
  log_interval :: int
  max_episodes :: int

record ('e, 'g, 'o) trainer =
  model :: policy
  optimizer :: 'o
  env :: 'e
  rng :: 'g
  observation :: "real list option"
  timestep :: "nat option"
  running_reward :: "real option"
  epoch :: nat
  should_terminate :: bool
  should_terminate_single_epoch :: bool

text \<open>\<^verbatim>\<open>eps = np.finfo(np.float32).eps.item()\<close>\<close>

definition float32_eps :: real where
  "float32_eps = 1 / 2 ^ 23"

definition run_single_timestep ::
  "('e, 'g, 'o) deps \<Rightarrow> args \<Rightarrow> ('e, 'g, 'o) trainer \<Rightarrow> nat
     \<Rightarrow> error + ('e, 'g, 'o) trainer" where
  "run_single_timestep ext a st t =
     (case observation st of
        None \<Rightarrow> Inl (AttributeError ''observation'')
      | Some obs \<Rightarrow>
          (case select_action ext (model st) (rng st) obs of
             Inl e \<Rightarrow> Inl e
           | Inr (action, p, g) \<Rightarrow>
               (let ((obs', reward, done), e1) = env_step ext (env st) action;
                    e2 = (if render a then env_render ext e1 else e1);
                    st' = st\<lparr>model := p\<lparr>rewards := rewards p @ [reward]\<rparr>, rng := g,
                             env := e2, observation := Some obs'\<rparr>
                in Inr (if done
                        then st'\<lparr>should_terminate_single_epoch := True, timestep := Some t\<rparr>
                        else st'))))"

definition initialize :: "('e, 'g, 'o) trainer \<Rightarrow> ('e, 'g, 'o) trainer" where
  "initialize st = st\<lparr>running_reward := Some 10\<rparr>"

definition reset_environment_state ::
  "('e, 'g, 'o) deps \<Rightarrow> ('e, 'g, 'o) trainer \<Rightarrow> ('e, 'g, 'o) trainer" where
  "reset_environment_state ext st =
     (let (obs, e) = env_reset ext (env st) in st\<lparr>observation := Some obs, env := e\<rparr>)"

definition update_model ::
  "('e, 'g, 'o) deps \<Rightarrow> args \<Rightarrow> ('e, 'g, 'o) trainer \<Rightarrow> error + ('e, 'g, 'o) trainer" where
  "update_model ext a st =
     (case timestep st of
        None \<Rightarrow> Inl (AttributeError ''timestep'')
      | Some t \<Rightarrow>
          (case running_reward st of
             None \<Rightarrow> Inl (AttributeError ''running_reward'')
           | Some rr \<Rightarrow>
               (let st' = st\<lparr>running_reward := Some (rr * (99 / 100) + real t * (1 / 100))\<rparr>
                in case finish_episode ext (model st') (optimizer st') (gamma a) float32_eps of
                     Inl e \<Rightarrow> Inl e
                   | Inr (p, opt) \<Rightarrow> Inr (st'\<lparr>model := p, optimizer := opt\<rparr>))))"

definition should_finish_training ::
  "('e, 'g, 'o) deps \<Rightarrow> ('e, 'g, 'o) trainer \<Rightarrow> error + ('e, 'g, 'o) trainer" where
  "should_finish_training ext st =
     (case running_reward st of
        None \<Rightarrow> Inl (AttributeError ''running_reward'')
      | Some rr \<Rightarrow>
          Inr (if reward_threshold ext < rr then st\<lparr>should_terminate := True\<rparr> else st))"

section \<open>The training driver\<close>

text \<open>
  Modelled from the spec: the training driver, \<open>Engine.run\<close> of \<open>ignite.engine\<close>,
  whose source is not among the files of the example. The spec (4.3) gives its
  contract: a per-step callback invoked with increasing step indices; episode-boundary
  callbacks fired before the first step and after the episode's end; a way for the step
  callback to end the episode early; a global early-stop flag checked between episodes;
  and the run ends when the flag is set or the episode cap is reached. The handlers of
  one event run in the order of their registration.
\<close>

fun run_once_on_dataset ::
  "('e, 'g, 'o) deps \<Rightarrow> args \<Rightarrow> nat list \<Rightarrow> ('e, 'g, 'o) trainer
     \<Rightarrow> error + ('e, 'g, 'o) trainer" where
  "run_once_on_dataset ext a [] st = Inr st"
| "run_once_on_dataset ext a (t # ts) st =
     (case run_single_timestep ext a st t of
        Inl e \<Rightarrow> Inl e
      | Inr st' \<Rightarrow>
          if should_terminate_single_epoch st'
          then Inr (st'\<lparr>should_terminate_single_epoch := False\<rparr>)
          else run_once_on_dataset ext a ts st')"


text \<open>
  Modelled from the spec: one episode of the training driver. The episode counter
  advances, the episode-start handler runs, the steps run, and then the handlers of
  the episode's end run in the order \<open>main\<close> registers them.
\<close>

definition run_episode ::
  "('e, 'g, 'o) deps \<Rightarrow> args \<Rightarrow> nat list \<Rightarrow> ('e, 'g, 'o) trainer
     \<Rightarrow> error + ('e, 'g, 'o) trainer" where
  "run_episode ext a timesteps st =
     (let st1 = reset_environment_state ext (st\<lparr>epoch := epoch st + 1\<rparr>) in
      case run_once_on_dataset ext a timesteps st1 of
        Inl e \<Rightarrow> Inl e
      | Inr st2 \<Rightarrow>
          (case update_model ext a st2 of
             Inl e \<Rightarrow> Inl e
           | Inr st3 \<Rightarrow> should_finish_training ext st3))"

text \<open>
  Modelled from the spec: the loop over the episodes of the training driver, which
  stops at the episode cap or when the early-stop flag is set.
\<close>

fun run_epochs ::
  "('e, 'g, 'o) deps \<Rightarrow> args \<Rightarrow> nat list \<Rightarrow> nat \<Rightarrow> ('e, 'g, 'o) trainer
     \<Rightarrow> error + ('e, 'g, 'o) trainer" where
  "run_epochs ext a timesteps 0 st = Inr st"
| "run_epochs ext a timesteps (Suc n) st =
     (if should_terminate st then Inr st
      else case run_episode ext a timesteps st of
             Inl e \<Rightarrow> Inl e
           | Inr st' \<Rightarrow> run_epochs ext a timesteps n st')"

text \<open>
  Modelled from the spec: \<open>Engine.run(data, max_epochs)\<close>, which resets the engine's
  counter and flags, fires the start handler and runs the episodes.
\<close>

definition engine_run ::
  "('e, 'g, 'o) deps \<Rightarrow> args \<Rightarrow> nat list \<Rightarrow> int \<Rightarrow> ('e, 'g, 'o) trainer
     \<Rightarrow> error + ('e, 'g, 'o) trainer" where
  "engine_run ext a timesteps max_epochs st =
     run_epochs ext a timesteps (nat max_epochs)
       (initialize (st\<lparr>epoch := 0, should_terminate := False,
                       should_terminate_single_epoch := False\<rparr>))"

text \<open>The check of should_finish_training: the running reward is above the threshold.\<close>

definition exceeded :: "('e, 'g, 'o) deps \<Rightarrow> ('e, 'g, 'o) trainer \<Rightarrow> bool" where
  "exceeded ext st = (case running_reward st of None \<Rightarrow> False | Some rr \<Rightarrow> reward_threshold ext < rr)"

section \<open>main and the script (lines 13-16, 75-80, 128, 131-153)\<close>

definition main ::
  "('e, 'g, 'o) deps \<Rightarrow> 'e \<Rightarrow> 'g \<Rightarrow> args \<Rightarrow> error + ('e, 'g, 'o) trainer" where
  "main ext e g a =
     (let ((l1, l2, l3), g') = new_layers ext g;
          p = \<lparr>affine1 = l1, action_head = l2, value_head = l3,
               saved_actions = [], rewards = []\<rparr>;
          timesteps = [0..<10000]
      in engine_run ext a timesteps (max_episodes a)
           \<lparr>model = p, optimizer = new_optimizer ext, env = e, rng = g',
            observation = None, timestep = None, running_reward = None,
            epoch = 0, should_terminate = False, should_terminate_single_epoch = False\<rparr>)"

text \<open>
  \<open>gym_importable\<close> says whether \<^verbatim>\<open>import gym\<close> succeeds. The guard of lines 13-16
  runs when the module is loaded, before anything else of the script.
\<close>

definition gym_missing :: error where
  "gym_missing = RuntimeError Script ''Please install opengym: pip install gym''"

definition script ::
  "bool \<Rightarrow> ('e, 'g, 'o) deps \<Rightarrow> args \<Rightarrow> error + ('e, 'g, 'o) trainer" where
  "script gym_importable ext a =
     (if \<not> gym_importable then Inl gym_missing
      else main ext (make_env ext (seed a)) (manual_seed ext (seed a)) a)"

section \<open>A concrete instance\<close>

text \<open>
  A policy whose weights are all zero, and collaborators to run the script on: an
  environment whose every episode ends at its first step with reward \<open>1\<close>, a sampler
  that always draws action \<open>0\<close>, and an optimizer that leaves the layers as they are.
\<close>

definition zero_linear :: "nat \<Rightarrow> nat \<Rightarrow> linear" where
  "zero_linear n_in n_out =
     \<lparr>weight = replicate n_out (replicate n_in 0), bias = replicate n_out 0\<rparr>"

definition zero_policy :: policy where
  "zero_policy =
     \<lparr>affine1 = zero_linear 4 128, action_head = zero_linear 128 2,
      value_head = zero_linear 128 1, saved_actions = [], rewards = []\<rparr>"

definition stub_deps :: "(unit, unit, unit) deps" where
  "stub_deps =
     \<lparr>make_env = (\<lambda>_. ()),
      env_reset = (\<lambda>e. ([0, 0, 0, 0], e)),
      env_step = (\<lambda>e action. (([0, 0, 0, 0], 1, True), e)),
      env_render = (\<lambda>e. e),
      reward_threshold = 5,
      manual_seed = (\<lambda>_. ()),
      new_layers = (\<lambda>g. ((zero_linear 4 128, zero_linear 128 2, zero_linear 128 1), g)),
      sample = (\<lambda>g ps. (0, g)),
      new_optimizer = (),
      opt_step = (\<lambda>opt p pairs loss. (opt, (affine1 p, action_head p, value_head p)))\<rparr>"

definition stub_args :: args where
  "stub_args = \<lparr>gamma = 99 / 100, seed = 543, render = False, log_interval = 10,
                 max_episodes = 3\<rparr>"

definition two_step_policy :: policy where
  "two_step_policy =
     zero_policy\<lparr>saved_actions := [\<lparr>log_prob = ln (1 / 2), value = [0]\<rparr>,
                                 \<lparr>log_prob = ln (1 / 2), value = [0]\<rparr>],
                 rewards := [1, 1]\<rparr>"


text \<open>
  The state \<open>main\<close> starts from with these collaborators, the state at the end of
  its first episode (one step), and the state its run ends in.
\<close>

definition stub_state :: "(unit, unit, unit) trainer" where
  "stub_state =
     \<lparr>model = zero_policy, optimizer = (), env = (), rng = (),
      observation = None, timestep = None, running_reward = None,
      epoch = 0, should_terminate = False, should_terminate_single_epoch = False\<rparr>"

definition stub_episode_end :: "(unit, unit, unit) trainer" where
  "stub_episode_end =
     \<lparr>model = zero_policy\<lparr>saved_actions := [\<lparr>log_prob = ln (1 / 2), value = [0]\<rparr>],
                          rewards := [1]\<rparr>,
      optimizer = (), env = (), rng = (),
      observation = Some [0, 0, 0, 0], timestep = Some 0, running_reward = Some 10,
      epoch = 1, should_terminate = False, should_terminate_single_epoch = False\<rparr>"

definition stub_final :: "(unit, unit, unit) trainer" where
  "stub_final =
     \<lparr>model = zero_policy, optimizer = (), env = (), rng = (),
      observation = Some [0, 0, 0, 0], timestep = Some 0, running_reward = Some (99 / 10),
      epoch = 1, should_terminate = True, should_terminate_single_epoch = False\<rparr>"





section \<open>Properties of the discounted returns\<close>

lemma returns_loop_suffix:
  "returns_loop \<gamma> ys (dsum \<gamma> suf) (suffix_returns \<gamma> suf)
     = suffix_returns \<gamma> (rev ys @ suf)"
proof (induction ys arbitrary: suf)
  case Nil
  show ?case by simp
next
  case (Cons y ys)
  have "returns_loop \<gamma> (y # ys) (dsum \<gamma> suf) (suffix_returns \<gamma> suf)
          = returns_loop \<gamma> ys (dsum \<gamma> (y # suf)) (suffix_returns \<gamma> (y # suf))"
    by (simp add: Let_def)
  also have "\<dots> = suffix_returns \<gamma> (rev ys @ y # suf)"
    by (rule Cons.IH)
  finally show ?case by simp
qed

lemma discounted_returns_suffix:
  "discounted_returns \<gamma> rs = suffix_returns \<gamma> rs"
  using returns_loop_suffix [of \<gamma> "rev rs" "[]"]
  by (simp add: discounted_returns_def)

lemma length_suffix_returns [simp]: "length (suffix_returns \<gamma> rs) = length rs"
  by (induction rs) simp_all

lemma length_discounted_returns [simp]:
  "length (discounted_returns \<gamma> rs) = length rs"
  by (simp add: discounted_returns_suffix)

lemma suffix_returns_nth:
  "t < length rs \<Longrightarrow> suffix_returns \<gamma> rs ! t = dsum \<gamma> (drop t rs)"
proof (induction rs arbitrary: t)
  case Nil
  then show ?case by simp
next
  case (Cons r rs)
  show ?case
  proof (cases t)
    case 0
    then show ?thesis by simp
  next
    case (Suc t')
    with Cons show ?thesis by simp
  qed
qed

lemma dsum_sum: "dsum \<gamma> rs = (\<Sum>k<length rs. \<gamma> ^ k * rs ! k)"
proof (induction rs)
  case Nil
  show ?case by simp
next
  case (Cons r rs)
  have "(\<Sum>k<length (r # rs). \<gamma> ^ k * (r # rs) ! k)
          = r + (\<Sum>k<length rs. \<gamma> ^ Suc k * rs ! k)"
    unfolding list.size(4) add_Suc_right add_0_right sum.lessThan_Suc_shift by simp
  also have "(\<Sum>k<length rs. \<gamma> ^ Suc k * rs ! k)
          = \<gamma> * (\<Sum>k<length rs. \<gamma> ^ k * rs ! k)"
    by (simp add: sum_distrib_left mult.assoc)
  finally show ?case using Cons.IH by simp
qed

lemma dsum_drop:
  assumes "t < length rs"
  shows "dsum \<gamma> (drop t rs) = (\<Sum>k = t..<length rs. \<gamma> ^ (k - t) * rs ! k)"
proof -
  have "dsum \<gamma> (drop t rs) = (\<Sum>k<length rs - t. \<gamma> ^ k * rs ! (t + k))"
    using assms by (simp add: dsum_sum)
  also have "\<dots> = (\<Sum>k = 0..<length rs - t. \<gamma> ^ (k + t - t) * rs ! (k + t))"
    by (simp add: lessThan_atLeast0 add.commute)
  also have "\<dots> = (\<Sum>k = 0 + t..<length rs - t + t. \<gamma> ^ (k - t) * rs ! k)"
    by (rule sum.shift_bounds_nat_ivl [symmetric])
  finally show ?thesis using assms by simp
qed

text \<open>
  C1. The raw return that the loop of finish_episode leaves at position \<open>t\<close> (counted
  from 0) of a reward trace \<open>rs\<close> of length \<open>T\<close> is
  \<open>rs ! t + \<gamma> * rs ! (t + 1) + ... + \<gamma> ^ (T - 1 - t) * rs ! (T - 1)\<close>, and the
  list of returns is as long as the trace. For rewards \<open>[1, 1, 1]\<close> and \<open>\<gamma> = 1\<close>
  the raw returns are \<open>[3, 2, 1]\<close>; for rewards \<open>[0, 0, 1]\<close> and \<open>\<gamma> = 0.99\<close> they
  are \<open>[0.9801, 0.99, 1]\<close>.
\<close>

theorem discounted_returns_closed_form:
  "discounted_returns \<gamma> rs
     = map (\<lambda>t. \<Sum>k = t..<length rs. \<gamma> ^ (k - t) * rs ! k) [0..<length rs]
   \<and> discounted_returns 1 [1, 1, 1] = [3, 2, 1]
   \<and> discounted_returns (99 / 100) [0, 0, 1] = [9801 / 10000, 99 / 100, 1]"
proof (intro conjI)
  show "discounted_returns \<gamma> rs
     = map (\<lambda>t. \<Sum>k = t..<length rs. \<gamma> ^ (k - t) * rs ! k) [0..<length rs]"
    by (rule nth_equalityI)
       (simp_all add: discounted_returns_suffix suffix_returns_nth dsum_drop)
  show "discounted_returns 1 [1, 1, 1] = [3, 2, 1]"
    by (simp add: discounted_returns_def)
  show "discounted_returns (99 / 100) [0, 0, 1] = [9801 / 10000, 99 / 100, 1]"
    by (simp add: discounted_returns_def)
qed

section \<open>Properties of the normalisation\<close>

lemma tensor_mean_Fin:
  "xs \<noteq> [] \<Longrightarrow> tensor_mean xs = Fin (sum_list xs / real (length xs))"
  by (simp add: tensor_mean_def)

lemma tensor_std_Fin:
  assumes "2 \<le> length xs"
  shows "tensor_std xs
    = Fin (sqrt ((\<Sum>x\<leftarrow>xs. (x - sum_list xs / real (length xs))\<^sup>2) / real (length xs - 1)))"
proof -
  from assms have ne: "xs \<noteq> []" by auto
  have nn: "0 \<le> (\<Sum>x\<leftarrow>xs. (x - sum_list xs / real (length xs))\<^sup>2)"
    by (rule sum_list_nonneg) auto
  have "\<not> (\<Sum>x\<leftarrow>xs. (x - sum_list xs / real (length xs))\<^sup>2) / real (length xs - 1) < 0"
    using nn by (simp add: not_less)
  with assms ne show ?thesis
    by (simp add: tensor_std_def tensor_mean_Fin)
qed

lemma tensor_std_short: "length xs \<le> 1 \<Longrightarrow> tensor_std xs = NaN"
proof (cases xs)
  case Nil
  then show ?thesis by (simp add: tensor_std_def tensor_mean_def)
next
  case (Cons x xs')
  assume "length xs \<le> 1"
  with Cons have "xs = [x]" by simp
  then show ?thesis by (simp add: tensor_std_def tensor_mean_def)
qed

lemma sum_list_scaled:
  "(\<Sum>x\<leftarrow>xs. (x - m) / d) = (sum_list xs - real (length xs) * m) / (d::real)"
  by (induction xs) (simp_all add: field_simps add_divide_distrib diff_divide_distrib)

lemma sum_list_sq_scaled:
  "(\<Sum>x\<leftarrow>xs. ((x - m) / d)\<^sup>2) = (\<Sum>x\<leftarrow>xs. (x - m)\<^sup>2) / (d::real)\<^sup>2"
  by (induction xs) (simp_all add: power_divide add_divide_distrib)

lemma sum_list_pos:
  "(\<And>x. x \<in> set xs \<Longrightarrow> 0 \<le> f x) \<Longrightarrow> \<exists>x\<in>set xs. 0 < f x \<Longrightarrow> 0 < (\<Sum>x\<leftarrow>xs. (f x :: real))"
proof (induction xs)
  case Nil
  then show ?case by simp
next
  case (Cons a xs)
  have rest: "0 \<le> (\<Sum>x\<leftarrow>xs. f x)"
    by (rule sum_list_nonneg) (use Cons.prems(1) in auto)
  show ?case
  proof (cases "0 < f a")
    case True
    with rest show ?thesis by simp
  next
    case False
    with Cons.prems(2) have "\<exists>x\<in>set xs. 0 < f x" by auto
    with Cons.IH Cons.prems(1) have "0 < (\<Sum>x\<leftarrow>xs. f x)" by simp
    moreover have "0 \<le> f a" using Cons.prems(1) by simp
    ultimately show ?thesis by simp
  qed
qed

lemma not_constant_length: "\<not> constant_seq xs \<Longrightarrow> 2 \<le> length xs"
  by (cases xs; cases "tl xs") auto

lemma not_constant_off_mean:
  assumes "\<not> constant_seq xs"
  shows "\<exists>x\<in>set xs. x \<noteq> m"
proof (rule ccontr)
  assume "\<not> (\<exists>x\<in>set xs. x \<noteq> m)"
  then have all: "\<forall>x\<in>set xs. x = m" by simp
  then have "constant_seq xs"
    by (cases xs) (auto simp: list_all_iff)
  with assms show False by simp
qed

lemma sqrt_div_sq: "0 < d \<Longrightarrow> sqrt (a / d\<^sup>2) = sqrt a / d"
  by (simp add: real_sqrt_divide)

lemma normalized_moments:
  assumes eps: "0 \<le> eps" and nc: "\<not> constant_seq xs"
  defines "s \<equiv> sqrt ((\<Sum>x\<leftarrow>xs. (x - sum_list xs / real (length xs))\<^sup>2) / real (length xs - 1))"
  defines "ys \<equiv> map (\<lambda>x. (x - sum_list xs / real (length xs)) / (s + eps)) xs"
  shows "tensor_std xs = Fin s" and "0 < s" and "normalize_returns xs eps = map Fin ys"
    and "tensor_mean ys = Fin 0" and "tensor_std ys = Fin (s / (s + eps))"
proof -
  let ?n = "length xs"
  let ?m = "sum_list xs / real ?n"
  let ?ss = "\<Sum>x\<leftarrow>xs. (x - ?m)\<^sup>2"
  from nc have len: "2 \<le> ?n" by (rule not_constant_length)
  then have ne: "xs \<noteq> []" by auto
  show std: "tensor_std xs = Fin s"
    unfolding s_def using len by (rule tensor_std_Fin)
  have "0 < ?ss"
  proof (rule sum_list_pos)
    show "\<exists>x\<in>set xs. 0 < (x - ?m)\<^sup>2"
      using not_constant_off_mean [OF nc, of ?m] by auto
  qed simp
  with len show pos: "0 < s" by (simp add: s_def)
  with eps have d: "0 < s + eps" by simp
  show norm: "normalize_returns xs eps = map Fin ys"
    using d ne by (simp add: normalize_returns_def std tensor_mean_Fin tsub_def ys_def)
  have ylen: "length ys = ?n" by (simp add: ys_def)
  have ysum: "sum_list ys = 0"
    using ne by (simp add: ys_def sum_list_scaled)
  from ne ylen have yne: "ys \<noteq> []" by auto
  show "tensor_mean ys = Fin 0"
    using yne ysum by (simp add: tensor_mean_Fin)
  have "(\<Sum>y\<leftarrow>ys. (y - sum_list ys / real (length ys))\<^sup>2) = (\<Sum>y\<leftarrow>ys. y\<^sup>2)"
    by (simp add: ysum)
  also have "\<dots> = ?ss / (s + eps)\<^sup>2"
    by (simp add: ys_def sum_list_sq_scaled comp_def)
  finally have "(\<Sum>y\<leftarrow>ys. (y - sum_list ys / real (length ys))\<^sup>2) = ?ss / (s + eps)\<^sup>2" .
  then have "tensor_std ys = Fin (sqrt (?ss / (s + eps)\<^sup>2 / real (?n - 1)))"
    using tensor_std_Fin [of ys] len ylen by simp
  also have "?ss / (s + eps)\<^sup>2 / real (?n - 1) = (?ss / real (?n - 1)) / (s + eps)\<^sup>2"
    by simp
  also have "sqrt (\<dots>) = s / (s + eps)"
    unfolding s_def [symmetric] using d by (simp only: sqrt_div_sq s_def)
  finally show "tensor_std ys = Fin (s / (s + eps))" .
qed

text \<open>
  C2 (amended). For a reward trace whose raw returns are not all equal, and a stability
  constant \<open>eps \<ge> 0\<close>, the raw returns have a standard deviation \<open>s > 0\<close>, every
  normalised return is finite, the normalised returns have mean \<open>0\<close> and standard
  deviation \<open>s / (s + eps)\<close>, which is below \<open>1\<close> by \<open>eps / (s + eps) \<le> eps / s\<close>.
\<close>

theorem normalized_returns_moments:
  assumes "0 \<le> eps" and "\<not> constant_seq (discounted_returns \<gamma> rs)"
  shows "\<exists>s ys. tensor_std (discounted_returns \<gamma> rs) = Fin s \<and> 0 < s
           \<and> normalize_returns (discounted_returns \<gamma> rs) eps = map Fin ys
           \<and> tensor_mean ys = Fin 0
           \<and> tensor_std ys = Fin (s / (s + eps))
           \<and> 1 - s / (s + eps) = eps / (s + eps)
           \<and> eps / (s + eps) \<le> eps / s"
proof -
  let ?xs = "discounted_returns \<gamma> rs"
  define s where
    "s = sqrt ((\<Sum>x\<leftarrow>?xs. (x - sum_list ?xs / real (length ?xs))\<^sup>2) / real (length ?xs - 1))"
  define ys where
    "ys = map (\<lambda>x. (x - sum_list ?xs / real (length ?xs)) / (s + eps)) ?xs"
  note m = normalized_moments [OF assms, folded s_def, folded ys_def]
  have pos: "0 < s" by (rule m(2))
  with assms(1) have d: "0 < s + eps" by simp
  have gap: "1 - s / (s + eps) = eps / (s + eps)"
    using d by (simp add: field_simps)
  have bound: "eps / (s + eps) \<le> eps / s"
    using pos assms(1) by (simp add: frac_le)
  from m gap bound show ?thesis by blast
qed

theorem normalized_returns_moments_witness:
  "\<exists>s ys. tensor_std (discounted_returns 0 [0, 1]) = Fin s \<and> 0 < s
     \<and> normalize_returns (discounted_returns 0 [0, 1]) float32_eps = map Fin ys
     \<and> tensor_mean ys = Fin 0
     \<and> tensor_std ys = Fin (s / (s + float32_eps))
     \<and> 1 - s / (s + float32_eps) = float32_eps / (s + float32_eps)
     \<and> float32_eps / (s + float32_eps) \<le> float32_eps / s"
proof -
  have e: "0 \<le> float32_eps" by (simp add: float32_eps_def)
  have nc: "\<not> constant_seq (discounted_returns 0 [0, 1])"
    by (simp add: discounted_returns_def)
  show ?thesis by (rule normalized_returns_moments [OF e nc])
qed

text \<open>
  C2 as stated fails: the rewards \<open>[1, 2]\<close> are not constant, but with \<open>gamma = 1/2\<close>
  their raw returns are \<open>[2, 2]\<close>, the normalised returns are \<open>[0, 0]\<close>, and the
  standard deviation of those is \<open>0\<close>, not about \<open>1\<close>.
\<close>

theorem normalized_returns_counterexample:
  "\<not> constant_seq [1, 2]
   \<and> discounted_returns (1 / 2) [1, 2] = [2, 2]
   \<and> normalize_returns (discounted_returns (1 / 2) [1, 2]) float32_eps = [Fin 0, Fin 0]
   \<and> tensor_std [0, 0] = Fin 0"
  by (simp add: discounted_returns_def normalize_returns_def tensor_mean_def tensor_std_def
        tsub_def float32_eps_def)

text \<open>
  C3. For an episode of a single timestep the standard deviation of line 58 is not
  \<open>0\<close> but NaN (the unbiased estimator divides \<open>0\<close> by \<open>n - 1 = 0\<close>); adding \<open>eps\<close>
  leaves it NaN, and the one normalised return is NaN: it is not finite, whatever the
  reward, the discount and \<open>eps\<close> are.
\<close>

theorem single_timestep_normalize_nan:
  "tensor_std (discounted_returns \<gamma> [r]) = NaN
   \<and> normalize_returns (discounted_returns \<gamma> [r]) eps = [NaN]
   \<and> \<not> is_finite (hd (normalize_returns (discounted_returns \<gamma> [r]) eps))"
  by (simp add: discounted_returns_def normalize_returns_def tensor_mean_def tensor_std_def tsub_def)

section \<open>Properties of the policy and of select_action\<close>

lemma linear_forward_wf:
  assumes "wf_linear n_in n_out l" and "length x = n_in"
  shows "\<exists>y. linear_forward l x = Inr y \<and> length y = n_out"
  using assms by (simp add: wf_linear_def linear_forward_def)

lemma length_relu [simp]: "length (relu xs) = length xs"
  by (simp add: relu_def)

lemma length_softmax [simp]: "length (softmax xs) = length xs"
  by (simp add: softmax_def)

lemma sum_list_exp_pos: "xs \<noteq> [] \<Longrightarrow> 0 < (\<Sum>y\<leftarrow>xs. exp (y::real))"
proof -
  assume "xs \<noteq> []"
  then obtain a ys where xs: "xs = a # ys" by (cases xs) auto
  have "0 \<le> (\<Sum>y\<leftarrow>ys. exp y)" by (rule sum_list_nonneg) auto
  moreover have "0 < exp a" by simp
  ultimately show ?thesis unfolding xs by (simp add: add_pos_nonneg)
qed

lemma sum_list_divide: "(\<Sum>x\<leftarrow>xs. f x / (c::real)) = (\<Sum>x\<leftarrow>xs. f x) / c"
  by (induction xs) (simp_all add: add_divide_distrib)

lemma softmax_sum:
  assumes "xs \<noteq> []"
  shows "sum_list (softmax xs) = 1"
proof -
  have "0 < (\<Sum>y\<leftarrow>xs. exp y)" using assms by (rule sum_list_exp_pos)
  then show ?thesis
    by (simp add: softmax_def sum_list_divide)
qed

lemma softmax_pos:
  assumes "q \<in> set (softmax xs)"
  shows "0 < q"
proof -
  from assms have ne: "xs \<noteq> []" by (auto simp: softmax_def)
  have "0 < (\<Sum>y\<leftarrow>xs. exp y)" using ne by (rule sum_list_exp_pos)
  with assms show ?thesis by (auto simp: softmax_def)
qed

lemma forward_wf:
  assumes "wf_policy p" and "length x = 4"
  shows "\<exists>scores v. forward p x = Inr (softmax scores, [v]) \<and> length scores = 2"
proof -
  from assms obtain h where h: "linear_forward (affine1 p) x = Inr h" "length h = 128"
    using linear_forward_wf [of 4 128 "affine1 p" x] by (auto simp: wf_policy_def)
  from assms h obtain sc where sc: "linear_forward (action_head p) (relu h) = Inr sc" "length sc = 2"
    using linear_forward_wf [of 128 2 "action_head p" "relu h"] by (auto simp: wf_policy_def)
  from assms h obtain vs where vs: "linear_forward (value_head p) (relu h) = Inr vs" "length vs = 1"
    using linear_forward_wf [of 128 1 "value_head p" "relu h"] by (auto simp: wf_policy_def)
  from vs(2) obtain v where "vs = [v]" by (cases vs) auto
  with h sc vs have "forward p x = Inr (softmax sc, [v])" by (simp add: forward_def)
  with sc(2) show ?thesis by blast
qed

lemma select_action_in_range:
  assumes "select_action ext p g obs = Inr (a, p', g')"
  shows "\<exists>probs v. forward p obs = Inr (probs, v) \<and> a < length probs
           \<and> p' = p\<lparr>saved_actions := saved_actions p @ [\<lparr>log_prob = ln (probs ! a), value = v\<rparr>]\<rparr>"
  using assms
  by (auto simp: select_action_def split: sum.splits prod.splits if_splits)

text \<open>
  C10. For a policy with the layers of \<open>Policy.__init__\<close> and every input vector of
  4 entries, \<open>forward\<close> returns two probabilities, each non-negative, that sum to 1,
  and a value tensor of one element; hence every action that select_action returns for
  this input, whatever the sampler, is 0 or 1.
\<close>

theorem forward_distribution:
  assumes "wf_policy p" and "length x = 4"
  shows "\<exists>probs v. forward p x = Inr (probs, [v])
           \<and> length probs = 2 \<and> list_all (\<lambda>q. 0 \<le> q) probs \<and> sum_list probs = 1
           \<and> (\<forall>(ext :: ('e, 'g, 'o) deps) g a p' g'.
                 select_action ext p g x = Inr (a, p', g') \<longrightarrow> a = 0 \<or> a = 1)"
proof -
  from forward_wf [OF assms] obtain scores v
    where f: "forward p x = Inr (softmax scores, [v])" and len: "length scores = 2"
    by blast
  from len have ne: "scores \<noteq> []" by auto
  have nonneg: "list_all (\<lambda>q. 0 \<le> q) (softmax scores)"
    using softmax_pos [of _ scores] by (auto simp: list_all_iff intro: less_imp_le)
  have act: "a = 0 \<or> a = 1" if "select_action ext p g x = Inr (a, p', g')"
    for ext :: "('e, 'g, 'o) deps" and g a p' g'
  proof -
    from select_action_in_range [OF that] f len have "a < 2" by auto
    then show ?thesis by auto
  qed
  from f len nonneg softmax_sum [OF ne] act show ?thesis
    by (intro exI [of _ "softmax scores"] exI [of _ v]) simp
qed

text \<open>
  C5. For a policy with the layers of \<open>Policy.__init__\<close>, an observation of 4 entries
  and a sampler that draws an index of the probability vector it is given, one call
  of select_action returns an action index (0 or 1) and the policy with exactly one
  \<open>SavedAction\<close> (a log-probability and a one-element value) appended to
  \<open>saved_actions\<close>; \<open>rewards\<close> is unchanged.
\<close>

theorem select_action_appends:
  assumes "wf_policy p" and "length obs = 4"
    and "\<And>g ps. ps \<noteq> [] \<Longrightarrow> fst (sample ext g ps) < length ps"
  shows "\<exists>a p' g' lp v. select_action ext p g obs = Inr (a, p', g') \<and> a < 2
           \<and> saved_actions p' = saved_actions p @ [\<lparr>log_prob = lp, value = [v]\<rparr>]
           \<and> length (saved_actions p') = Suc (length (saved_actions p))
           \<and> rewards p' = rewards p"
proof -
  from forward_wf [OF assms(1,2)] obtain scores v
    where f: "forward p obs = Inr (softmax scores, [v])" and len: "length scores = 2"
    by blast
  obtain a g' where s: "sample ext g (softmax scores) = (a, g')"
    by (cases "sample ext g (softmax scores)")
  from len have "softmax scores \<noteq> []" by (auto simp: softmax_def)
  from assms(3) [OF this, of g] s len have a: "a < 2" by simp
  with f s len show ?thesis
    by (simp add: select_action_def)
qed

lemma wf_zero_linear: "wf_linear n_in n_out (zero_linear n_in n_out)"
  by (simp add: wf_linear_def zero_linear_def list_all_iff)

lemma wf_zero_policy: "wf_policy zero_policy"
  by (simp add: wf_policy_def zero_policy_def wf_zero_linear)

lemma dot_zero: "dot (replicate n 0) x = 0"
proof (induction n arbitrary: x)
  case 0
  show ?case by (simp add: dot_def)
next
  case (Suc n)
  show ?case
  proof (cases x)
    case Nil
    then show ?thesis by (simp add: dot_def)
  next
    case (Cons a x')
    with Suc [of x'] show ?thesis by (simp add: dot_def)
  qed
qed

lemma linear_forward_zero:
  "length x = n_in \<Longrightarrow> linear_forward (zero_linear n_in n_out) x = Inr (replicate n_out 0)"
  by (simp add: linear_forward_def zero_linear_def list_all_iff zip_replicate dot_zero map_replicate)

lemma relu_zero: "relu (replicate n 0) = replicate n 0"
  by (simp add: relu_def)

lemma forward_zero:
  assumes "affine1 p = zero_linear 4 128" "action_head p = zero_linear 128 2"
    "value_head p = zero_linear 128 1" "length x = 4"
  shows "forward p x = Inr ([1 / 2, 1 / 2], [0])"
proof -
  have r2: "replicate 2 (0::real) = [0, 0]" by (simp add: numeral_2_eq_2)
  show ?thesis
    using assms by (simp add: forward_def linear_forward_zero relu_zero r2 softmax_def)
qed

theorem forward_distribution_witness:
  "\<exists>probs v. forward zero_policy [0, 0, 0, 0] = Inr (probs, [v])
     \<and> length probs = 2 \<and> list_all (\<lambda>q. 0 \<le> q) probs \<and> sum_list probs = 1
     \<and> (\<forall>(ext :: (unit, unit, unit) deps) g a p' g'.
           select_action ext zero_policy g [0, 0, 0, 0] = Inr (a, p', g') \<longrightarrow> a = 0 \<or> a = 1)"
  by (rule forward_distribution [OF wf_zero_policy]) simp

theorem select_action_appends_witness:
  "\<exists>a p' g' lp v. select_action stub_deps zero_policy () [0, 0, 0, 0] = Inr (a, p', g')
     \<and> a < 2
     \<and> saved_actions p' = saved_actions zero_policy @ [\<lparr>log_prob = lp, value = [v]\<rparr>]
     \<and> length (saved_actions p') = Suc (length (saved_actions zero_policy))
     \<and> rewards p' = rewards zero_policy"
  by (rule select_action_appends [OF wf_zero_policy]) (simp_all add: stub_deps_def)

section \<open>Properties of finish_episode\<close>

lemma length_normalize [simp]: "length (normalize_returns xs eps) = length xs"
  by (simp add: normalize_returns_def Let_def)

lemma loss_loop_length:
  "loss_loop ps pl vl = Inr (pl', vl')
     \<Longrightarrow> length pl' = length pl + length ps \<and> length vl' = length vl + length ps"
proof (induction ps pl vl rule: loss_loop.induct)
  case (1 pl vl)
  then show ?case by simp
next
  case (2 sa r ps pl vl)
  then show ?case
    by (auto simp: Let_def split: sum.splits)
qed

lemma loss_loop_ok:
  "list_all (\<lambda>(sa, r). length (value sa) = 1) ps
     \<Longrightarrow> \<exists>pl' vl'. loss_loop ps pl vl = Inr (pl', vl')"
proof (induction ps pl vl rule: loss_loop.induct)
  case (1 pl vl)
  show ?case by simp
next
  case (2 sa r ps pl vl)
  from "2.prems" obtain v where v: "value sa = [v]"
    by (cases "value sa") auto
  then have i: "item (value sa) = Inr v" by (simp add: item_def)
  from "2.prems" have rest: "list_all (\<lambda>(sa, r). length (value sa) = 1) ps" by simp
  from "2.IH" [OF i refl rest] i show ?case by (simp add: Let_def)
qed

lemma finish_episode_clears:
  assumes "finish_episode ext p opt \<gamma> eps = Inr (p', opt')"
  shows "saved_actions p' = [] \<and> rewards p' = []"
  using assms
  by (auto simp: finish_episode_def Let_def split: sum.splits prod.splits if_splits)

lemma finish_episode_empty:
  assumes "rewards p = [] \<or> saved_actions p = []"
  shows "finish_episode ext p opt \<gamma> eps
           = Inl (RuntimeError Library ''stack expects a non-empty TensorList'')"
proof -
  define pairs
    where "pairs = zip (saved_actions p) (normalize_returns (discounted_returns \<gamma> (rewards p)) eps)"
  have "length pairs = min (length (saved_actions p)) (length (rewards p))"
    by (simp add: pairs_def)
  with assms have "pairs = []" by auto
  then show ?thesis
    unfolding finish_episode_def pairs_def [symmetric] Let_def by simp
qed

lemma finish_episode_returns:
  assumes r: "rewards p \<noteq> []" and s: "saved_actions p \<noteq> []"
    and v: "list_all (\<lambda>sa. length (value sa) = 1) (saved_actions p)"
  shows "\<exists>p' opt'. finish_episode ext p opt \<gamma> eps = Inr (p', opt')"
proof -
  define pairs
    where "pairs = zip (saved_actions p) (normalize_returns (discounted_returns \<gamma> (rewards p)) eps)"
  have ok: "list_all (\<lambda>(sa, r). length (value sa) = 1) pairs"
    using v by (auto simp: pairs_def list_all_iff dest: set_zip_leftD)
  from loss_loop_ok [OF ok] obtain pl vl where l: "loss_loop pairs [] [] = Inr (pl, vl)"
    by blast
  have "length pairs = min (length (saved_actions p)) (length (rewards p))"
    by (simp add: pairs_def)
  with r s have "0 < length pairs" by simp
  with loss_loop_length [OF l] have "pl \<noteq> []" "vl \<noteq> []" by auto
  with l show ?thesis
    unfolding finish_episode_def pairs_def [symmetric] Let_def
    by (simp split: prod.splits)
qed

lemma after_finish_episode_contract:
  assumes eq: "length (rewards p) = length (saved_actions p)"
    and v: "list_all (\<lambda>sa. length (value sa) = 1) (saved_actions p)"
  shows "saved_actions (after_finish_episode ext p opt \<gamma> eps) = []"
    and "rewards (after_finish_episode ext p opt \<gamma> eps) = []"
    and "rewards p \<noteq> [] \<Longrightarrow> \<exists>p' opt'. finish_episode ext p opt \<gamma> eps = Inr (p', opt')"
proof -
  show r: "\<exists>p' opt'. finish_episode ext p opt \<gamma> eps = Inr (p', opt')" if "rewards p \<noteq> []"
  proof -
    from that eq have "saved_actions p \<noteq> []" by auto
    with that v show ?thesis by (intro finish_episode_returns)
  qed
  show "saved_actions (after_finish_episode ext p opt \<gamma> eps) = []"
  proof (cases "finish_episode ext p opt \<gamma> eps")
    case (Inl e)
    have "rewards p = []"
    proof (rule ccontr)
      assume "rewards p \<noteq> []"
      from r [OF this] Inl show False by simp
    qed
    with eq Inl show ?thesis by (simp add: after_finish_episode_def)
  next
    case (Inr q)
    obtain p' opt' where q: "q = (p', opt')" by (cases q)
    with Inr finish_episode_clears [of ext p opt \<gamma> eps p' opt'] show ?thesis
      by (simp add: after_finish_episode_def)
  qed
  show "rewards (after_finish_episode ext p opt \<gamma> eps) = []"
  proof (cases "finish_episode ext p opt \<gamma> eps")
    case (Inl e)
    have "rewards p = []"
    proof (rule ccontr)
      assume "rewards p \<noteq> []"
      from r [OF this] Inl show False by simp
    qed
    with Inl show ?thesis by (simp add: after_finish_episode_def)
  next
    case (Inr q)
    obtain p' opt' where q: "q = (p', opt')" by (cases q)
    with Inr finish_episode_clears [of ext p opt \<gamma> eps p' opt'] show ?thesis
      by (simp add: after_finish_episode_def)
  qed
qed

text \<open>
  C4. Whenever a call of finish_episode returns, both buffers of the policy have
  length 0, whatever they held before the call. And for every call on the input the
  function is written for (as many rewards as saved actions, every saved value the
  one-element tensor that \<open>value_head\<close> returns), both buffers have length 0 after the
  call, which returns whenever the episode has a timestep; on the empty episode it
  raises at \<open>torch.stack\<close>, and the buffers are empty as they were.
\<close>

theorem finish_episode_clears_buffers:
  "(\<forall>p' opt'. finish_episode ext p opt \<gamma> eps = Inr (p', opt')
       \<longrightarrow> length (saved_actions p') = 0 \<and> length (rewards p') = 0)
   \<and> (length (rewards p) = length (saved_actions p)
        \<and> list_all (\<lambda>sa. length (value sa) = 1) (saved_actions p)
       \<longrightarrow> length (saved_actions (after_finish_episode ext p opt \<gamma> eps)) = 0
         \<and> length (rewards (after_finish_episode ext p opt \<gamma> eps)) = 0
         \<and> (rewards p \<noteq> []
              \<longrightarrow> (\<exists>p' opt'. finish_episode ext p opt \<gamma> eps = Inr (p', opt'))))"
proof (intro conjI allI impI)
  fix p' opt'
  assume "finish_episode ext p opt \<gamma> eps = Inr (p', opt')"
  from finish_episode_clears [OF this]
  show "length (saved_actions p') = 0" and "length (rewards p') = 0" by simp_all
next
  assume h: "length (rewards p) = length (saved_actions p)
               \<and> list_all (\<lambda>sa. length (value sa) = 1) (saved_actions p)"
  then have eq: "length (rewards p) = length (saved_actions p)"
    and v: "list_all (\<lambda>sa. length (value sa) = 1) (saved_actions p)"
    by simp_all
  note c = after_finish_episode_contract [OF eq v]
  from c(1) show "length (saved_actions (after_finish_episode ext p opt \<gamma> eps)) = 0" by simp
  from c(2) show "length (rewards (after_finish_episode ext p opt \<gamma> eps)) = 0" by simp
  show "\<exists>p' opt'. finish_episode ext p opt \<gamma> eps = Inr (p', opt')" if "rewards p \<noteq> []"
    using that by (rule c(3))
qed

theorem finish_episode_clears_buffers_witness:
  "length (saved_actions (after_finish_episode stub_deps two_step_policy () (99 / 100) float32_eps)) = 0
   \<and> length (rewards (after_finish_episode stub_deps two_step_policy () (99 / 100) float32_eps)) = 0
   \<and> (\<exists>p' opt'. finish_episode stub_deps two_step_policy () (99 / 100) float32_eps = Inr (p', opt')
         \<and> length (saved_actions p') = 0 \<and> length (rewards p') = 0)"
proof -
  note t = finish_episode_clears_buffers [of stub_deps two_step_policy "()" "99 / 100" float32_eps]
  have h: "length (rewards two_step_policy) = length (saved_actions two_step_policy)
          \<and> list_all (\<lambda>sa. length (value sa) = 1) (saved_actions two_step_policy)"
    and ne: "rewards two_step_policy \<noteq> []"
    by (simp_all add: two_step_policy_def)
  from t h ne obtain p' opt'
    where r: "finish_episode stub_deps two_step_policy () (99 / 100) float32_eps = Inr (p', opt')"
    by blast
  with t have "length (saved_actions p') = 0 \<and> length (rewards p') = 0" by blast
  with r t h show ?thesis by blast
qed

section \<open>Properties of the step callback and of the handlers\<close>

lemma run_single_timestep_effect:
  assumes "run_single_timestep ext a st t = Inr st'"
  shows "length (saved_actions (model st')) = Suc (length (saved_actions (model st)))"
    and "length (rewards (model st')) = Suc (length (rewards (model st)))"
    and "epoch st' = epoch st" and "should_terminate st' = should_terminate st"
    and "running_reward st' = running_reward st"
    and "should_terminate_single_epoch st' \<Longrightarrow> \<not> should_terminate_single_epoch st
           \<Longrightarrow> timestep st' = Some t"
    and "\<not> should_terminate_single_epoch st' \<Longrightarrow> timestep st' = timestep st"
proof -
  from assms obtain obs where obs: "observation st = Some obs"
    by (auto simp: run_single_timestep_def split: option.splits)
  from assms obs obtain action p g
    where sel: "select_action ext (model st) (rng st) obs = Inr (action, p, g)"
    by (auto simp: run_single_timestep_def split: sum.splits)
  obtain obs' reward fin e1 where env: "env_step ext (env st) action = ((obs', reward, fin), e1)"
    by (metis prod_cases3 surj_pair)
  define st1 where
    "st1 = st\<lparr>model := p\<lparr>rewards := rewards p @ [reward]\<rparr>, rng := g,
               env := (if render a then env_render ext e1 else e1), observation := Some obs'\<rparr>"
  from assms obs sel env
  have st': "st' = (if fin then st1\<lparr>should_terminate_single_epoch := True, timestep := Some t\<rparr>
                    else st1)"
    by (auto simp: run_single_timestep_def Let_def st1_def)
  from select_action_in_range [OF sel]
  have p: "length (saved_actions p) = Suc (length (saved_actions (model st)))"
    "rewards p = rewards (model st)"
    by auto
  show "length (saved_actions (model st')) = Suc (length (saved_actions (model st)))"
    using p by (simp add: st' st1_def)
  show "length (rewards (model st')) = Suc (length (rewards (model st)))"
    using p by (simp add: st' st1_def)
  show "epoch st' = epoch st" by (simp add: st' st1_def)
  show "should_terminate st' = should_terminate st" by (simp add: st' st1_def)
  show "running_reward st' = running_reward st" by (simp add: st' st1_def)
  show "timestep st' = Some t"
    if "should_terminate_single_epoch st'" "\<not> should_terminate_single_epoch st"
    using that by (cases fin) (simp_all add: st' st1_def)
  show "timestep st' = timestep st" if "\<not> should_terminate_single_epoch st'"
    using that by (cases fin) (simp_all add: st' st1_def)
qed

lemma run_once_on_dataset_effect:
  "run_once_on_dataset ext a ts st = Inr st' \<Longrightarrow>
     (\<exists>n. n \<le> length ts \<and> (ts \<noteq> [] \<longrightarrow> 0 < n)
         \<and> length (saved_actions (model st')) = length (saved_actions (model st)) + n
         \<and> length (rewards (model st')) = length (rewards (model st)) + n)
     \<and> epoch st' = epoch st \<and> should_terminate st' = should_terminate st
     \<and> running_reward st' = running_reward st"
proof (induction ts arbitrary: st)
  case Nil
  then show ?case by simp
next
  case (Cons t ts)
  from Cons.prems obtain st1 where s1: "run_single_timestep ext a st t = Inr st1"
    by (auto split: sum.splits)
  note e = run_single_timestep_effect [OF s1]
  show ?case
  proof (cases "should_terminate_single_epoch st1")
    case True
    with Cons.prems s1 have "st' = st1\<lparr>should_terminate_single_epoch := False\<rparr>" by simp
    with e(1-5) show ?thesis by (auto intro!: exI [of _ 1])
  next
    case False
    with Cons.prems s1 have r: "run_once_on_dataset ext a ts st1 = Inr st'" by simp
    from Cons.IH [OF r] obtain n where n: "n \<le> length ts"
      "length (saved_actions (model st')) = length (saved_actions (model st1)) + n"
      "length (rewards (model st')) = length (rewards (model st1)) + n"
      and rest: "epoch st' = epoch st1" "should_terminate st' = should_terminate st1"
        "running_reward st' = running_reward st1"
      by blast
    from n e(1,2) have "\<exists>n. n \<le> length (t # ts) \<and> (t # ts \<noteq> [] \<longrightarrow> 0 < n)
         \<and> length (saved_actions (model st')) = length (saved_actions (model st)) + n
         \<and> length (rewards (model st')) = length (rewards (model st)) + n"
      by (intro exI [of _ "Suc n"]) simp
    with rest e(3-5) show ?thesis by simp
  qed
qed

lemma update_model_effect:
  assumes "update_model ext a st = Inr st'"
  shows "\<exists>rr t. running_reward st = Some rr \<and> timestep st = Some t
           \<and> running_reward st' = Some (rr * (99 / 100) + real t * (1 / 100))"
    and "saved_actions (model st') = []" and "rewards (model st') = []"
    and "epoch st' = epoch st" and "should_terminate st' = should_terminate st"
proof -
  from assms obtain t rr where t: "timestep st = Some t" and rr: "running_reward st = Some rr"
    by (auto simp: update_model_def split: option.splits)
  define st1 where "st1 = st\<lparr>running_reward := Some (rr * (99 / 100) + real t * (1 / 100))\<rparr>"
  from assms t rr obtain p opt
    where f: "finish_episode ext (model st) (optimizer st) (gamma a) float32_eps = Inr (p, opt)"
      and st': "st' = st1\<lparr>model := p, optimizer := opt\<rparr>"
    by (auto simp: update_model_def Let_def st1_def split: sum.splits)
  from t rr show "\<exists>rr t. running_reward st = Some rr \<and> timestep st = Some t
           \<and> running_reward st' = Some (rr * (99 / 100) + real t * (1 / 100))"
    by (simp add: st' st1_def)
  from finish_episode_clears [OF f]
  show "saved_actions (model st') = []" and "rewards (model st') = []"
    by (simp_all add: st')
  show "epoch st' = epoch st" and "should_terminate st' = should_terminate st"
    by (simp_all add: st' st1_def)
qed

lemma update_model_returns:
  assumes "timestep st = Some t" and "running_reward st = Some rr"
    and "rewards (model st) \<noteq> []" and "saved_actions (model st) \<noteq> []"
    and "list_all (\<lambda>sa. length (value sa) = 1) (saved_actions (model st))"
  shows "\<exists>st'. update_model ext a st = Inr st'"
proof -
  from finish_episode_returns [OF assms(3-5), of ext "optimizer st" "gamma a" float32_eps]
  obtain p opt
    where "finish_episode ext (model st) (optimizer st) (gamma a) float32_eps = Inr (p, opt)"
    by blast
  with assms(1,2) show ?thesis by (simp add: update_model_def Let_def)
qed

lemma should_finish_training_effect:
  assumes "should_finish_training ext st = Inr st'"
  shows "epoch st' = epoch st" and "model st' = model st"
    and "running_reward st' = running_reward st"
    and "\<exists>rr. running_reward st = Some rr
           \<and> (should_terminate st' \<longleftrightarrow> should_terminate st \<or> reward_threshold ext < rr)"
  using assms
  by (auto simp: should_finish_training_def split: option.splits if_splits)

lemma reset_environment_state_effect:
  "model (reset_environment_state ext st) = model st"
  "epoch (reset_environment_state ext st) = epoch st"
  "should_terminate (reset_environment_state ext st) = should_terminate st"
  "running_reward (reset_environment_state ext st) = running_reward st"
  by (simp_all add: reset_environment_state_def split: prod.splits)

lemma run_episode_effect:
  assumes "run_episode ext a ts st = Inr st'"
  shows "epoch st' = Suc (epoch st)"
    and "saved_actions (model st') = []" and "rewards (model st') = []"
    and "\<exists>rr. running_reward st' = Some rr
           \<and> (should_terminate st' \<longleftrightarrow> should_terminate st \<or> reward_threshold ext < rr)"
proof -
  define st1 where "st1 = reset_environment_state ext (st\<lparr>epoch := epoch st + 1\<rparr>)"
  from assms obtain st2 st3
    where r: "run_once_on_dataset ext a ts st1 = Inr st2"
      and u: "update_model ext a st2 = Inr st3"
      and f: "should_finish_training ext st3 = Inr st'"
    by (auto simp: run_episode_def Let_def st1_def split: sum.splits)
  note re = run_once_on_dataset_effect [OF r]
  note ue = update_model_effect [OF u]
  note fe = should_finish_training_effect [OF f]
  have s1: "epoch st1 = Suc (epoch st)" "should_terminate st1 = should_terminate st"
    by (simp_all add: st1_def reset_environment_state_effect)
  from re ue(4) fe(1) s1 show "epoch st' = Suc (epoch st)" by simp
  from ue(2,3) fe(2) show "saved_actions (model st') = []" and "rewards (model st') = []"
    by simp_all
  from fe(4) obtain rr where rr: "running_reward st3 = Some rr"
    "should_terminate st' \<longleftrightarrow> should_terminate st3 \<or> reward_threshold ext < rr"
    by blast
  from re ue(5) s1 have "should_terminate st3 = should_terminate st" by simp
  with rr fe(3) show "\<exists>rr. running_reward st' = Some rr
           \<and> (should_terminate st' \<longleftrightarrow> should_terminate st \<or> reward_threshold ext < rr)"
    by simp
qed

lemma run_epochs_stops:
  "should_terminate st \<Longrightarrow> run_epochs ext a ts n st = Inr st"
  by (cases n) simp_all

lemma run_epochs_invariant:
  "run_epochs ext a ts n st = Inr st' \<Longrightarrow>
   (should_terminate st \<longleftrightarrow> 0 < epoch st \<and> exceeded ext st) \<Longrightarrow>
     epoch st \<le> epoch st' \<and> epoch st' \<le> epoch st + n
     \<and> (should_terminate st' \<or> epoch st' = epoch st + n)
     \<and> (should_terminate st' \<longleftrightarrow> 0 < epoch st' \<and> exceeded ext st')
     \<and> (\<not> should_terminate st \<and> 0 < n \<longrightarrow> epoch st < epoch st')"
proof (induction n arbitrary: st)
  case 0
  then show ?case by simp
next
  case (Suc n)
  show ?case
  proof (cases "should_terminate st")
    case True
    with Suc.prems show ?thesis by simp
  next
    case False
    with Suc.prems(1) obtain st1 where e: "run_episode ext a ts st = Inr st1"
      and r: "run_epochs ext a ts n st1 = Inr st'"
      by (auto split: sum.splits)
    note ee = run_episode_effect [OF e]
    from ee(4) False have inv1: "should_terminate st1 \<longleftrightarrow> 0 < epoch st1 \<and> exceeded ext st1"
      using ee(1) by (auto simp: exceeded_def)
    from Suc.IH [OF r inv1] ee(1) False show ?thesis by auto
  qed
qed

section \<open>The script on the concrete instance\<close>

lemma stub_select_action:
  assumes "affine1 p = zero_linear 4 128" "action_head p = zero_linear 128 2"
    "value_head p = zero_linear 128 1"
  shows "select_action stub_deps p g [0, 0, 0, 0]
           = Inr (0, p\<lparr>saved_actions := saved_actions p @ [\<lparr>log_prob = ln (1 / 2), value = [0]\<rparr>]\<rparr>, g)"
  using assms by (simp add: select_action_def forward_zero stub_deps_def)

lemma stub_step:
  assumes "affine1 (model st) = zero_linear 4 128" "action_head (model st) = zero_linear 128 2"
    "value_head (model st) = zero_linear 128 1" "observation st = Some [0, 0, 0, 0]"
  shows "run_single_timestep stub_deps stub_args st t
           = Inr (st\<lparr>model := (model st)\<lparr>saved_actions := saved_actions (model st)
                                    @ [\<lparr>log_prob = ln (1 / 2), value = [0]\<rparr>],
                                  rewards := rewards (model st) @ [1]\<rparr>,
                    rng := rng st, env := (), observation := Some [0, 0, 0, 0],
                    should_terminate_single_epoch := True, timestep := Some t\<rparr>)"
proof -
  have "env_step stub_deps (env st) 0 = (([0, 0, 0, 0], 1, True), ())"
    by (simp add: stub_deps_def)
  with assms show ?thesis
    by (simp add: run_single_timestep_def stub_select_action stub_args_def)
qed

lemma timesteps_Cons: "[0..<10000] = 0 # [Suc 0..<10000]"
  by (rule upt_conv_Cons) simp

lemma stub_run_once:
  "run_once_on_dataset stub_deps stub_args (0 # ts)
     (reset_environment_state stub_deps (initialize stub_state\<lparr>epoch := 1\<rparr>))
   = Inr stub_episode_end"
proof -
  let ?st = "reset_environment_state stub_deps (initialize stub_state\<lparr>epoch := 1\<rparr>)"
  have st: "?st = stub_state\<lparr>running_reward := Some 10, epoch := 1,
                              observation := Some [0, 0, 0, 0]\<rparr>"
    by (simp add: reset_environment_state_def initialize_def stub_deps_def stub_state_def)
  have "run_single_timestep stub_deps stub_args ?st 0
          = Inr (stub_episode_end\<lparr>should_terminate_single_epoch := True\<rparr>)"
    unfolding st
    by (subst stub_step) (simp_all add: stub_state_def zero_policy_def stub_episode_end_def)
  then show ?thesis
    by (simp add: stub_episode_end_def)
qed

lemma stub_finish_episode:
  "finish_episode stub_deps (model stub_episode_end) () (99 / 100) float32_eps
     = Inr (zero_policy, ())"
proof -
  have b: "saved_actions (model stub_episode_end) = [\<lparr>log_prob = ln (1 / 2), value = [0]\<rparr>]"
    "rewards (model stub_episode_end) = [1]"
    by (simp_all add: stub_episode_end_def)
  have n: "normalize_returns (discounted_returns (99 / 100) [1]) float32_eps = [NaN]"
    by (simp add: discounted_returns_def normalize_returns_def tensor_mean_def tensor_std_def
          tsub_def)
  show ?thesis
    unfolding finish_episode_def b n Let_def
    by (simp add: item_def tsub_def smooth_l1_loss_def tsum_def stub_deps_def
          stub_episode_end_def zero_policy_def)
qed

lemma stub_update_model:
  "update_model stub_deps stub_args stub_episode_end
     = Inr (stub_final\<lparr>should_terminate := False\<rparr>)"
proof -
  have g: "gamma stub_args = 99 / 100" by (simp add: stub_args_def)
  have f: "timestep stub_episode_end = Some 0" "running_reward stub_episode_end = Some 10"
    by (simp_all add: stub_episode_end_def)
  have m: "model (stub_episode_end\<lparr>running_reward := Some (10 * (99 / 100) + real 0 * (1 / 100))\<rparr>)
             = model stub_episode_end"
    "optimizer (stub_episode_end\<lparr>running_reward := Some (10 * (99 / 100) + real 0 * (1 / 100))\<rparr>)
             = ()"
    by simp_all
  show ?thesis
    unfolding update_model_def f g Let_def option.case m stub_finish_episode
    by (simp add: stub_episode_end_def stub_final_def)
qed

lemma stub_run_episode:
  "run_episode stub_deps stub_args (0 # ts) (initialize stub_state) = Inr stub_final"
proof -
  have e: "initialize stub_state\<lparr>epoch := epoch (initialize stub_state) + 1\<rparr>
             = initialize stub_state\<lparr>epoch := 1\<rparr>"
    by (simp add: initialize_def stub_state_def)
  have f: "should_finish_training stub_deps (stub_final\<lparr>should_terminate := False\<rparr>)
             = Inr stub_final"
    by (simp add: should_finish_training_def stub_final_def stub_deps_def)
  show ?thesis
    unfolding run_episode_def Let_def e stub_run_once
    by (simp add: stub_update_model f)
qed

lemma stub_engine_run:
  "engine_run stub_deps stub_args (0 # ts) 3 stub_state = Inr stub_final"
proof -
  have i: "stub_state\<lparr>epoch := 0, should_terminate := False,
                       should_terminate_single_epoch := False\<rparr> = stub_state"
    by (simp add: stub_state_def)
  have n: "nat 3 = Suc (Suc (Suc 0))" by simp
  have a: "\<not> should_terminate (initialize stub_state)"
    by (simp add: initialize_def stub_state_def)
  have b: "should_terminate stub_final" by (simp add: stub_final_def)
  show ?thesis
    unfolding engine_run_def i n
    by (simp add: a b stub_run_episode)
qed

lemma stub_main:
  "main stub_deps () () stub_args = Inr stub_final"
proof -
  have s: "\<lparr>model = \<lparr>affine1 = zero_linear 4 128, action_head = zero_linear 128 2,
                      value_head = zero_linear 128 1, saved_actions = [], rewards = []\<rparr>,
             optimizer = new_optimizer stub_deps, env = (), rng = (),
             observation = None, timestep = None, running_reward = None,
             epoch = 0, should_terminate = False, should_terminate_single_epoch = False\<rparr>
           = stub_state"
    by (simp add: stub_state_def zero_policy_def)
  have l: "new_layers stub_deps () = ((zero_linear 4 128, zero_linear 128 2, zero_linear 128 1), ())"
    by (simp add: stub_deps_def)
  have m: "max_episodes stub_args = 3" by (simp add: stub_args_def)
  show ?thesis
    unfolding main_def l Let_def prod.case m s timesteps_Cons
    by (rule stub_engine_run)
qed

lemma stub_script: "script True stub_deps stub_args = Inr stub_final"
  by (simp add: script_def stub_main)

section \<open>Properties of the training run\<close>

text \<open>
  C6. Every call of run_single_timestep that returns has appended exactly one saved
  action and exactly one reward. So an episode that starts with both buffers empty
  ends, before update_model runs, with as many rewards as saved actions, and with at
  least one when there is a timestep to run; and after the handlers of the episode's
  end both buffers are empty again, as they are in the policy \<open>main\<close> creates.
\<close>

theorem buffers_stay_paired:
  "(\<forall>st'. run_single_timestep ext a st t = Inr st'
      \<longrightarrow> length (saved_actions (model st')) = Suc (length (saved_actions (model st)))
        \<and> length (rewards (model st')) = Suc (length (rewards (model st))))
   \<and> (\<forall>st'. saved_actions (model st) = [] \<and> rewards (model st) = []
          \<and> run_once_on_dataset ext a ts st = Inr st'
      \<longrightarrow> length (rewards (model st')) = length (saved_actions (model st'))
        \<and> (ts \<noteq> [] \<longrightarrow> rewards (model st') \<noteq> []))
   \<and> (\<forall>st'. run_episode ext a ts st = Inr st'
      \<longrightarrow> saved_actions (model st') = [] \<and> rewards (model st') = [])"
proof (intro conjI allI impI)
  fix st'
  assume "run_single_timestep ext a st t = Inr st'"
  from run_single_timestep_effect(1,2) [OF this]
  show "length (saved_actions (model st')) = Suc (length (saved_actions (model st)))"
    and "length (rewards (model st')) = Suc (length (rewards (model st)))" .
next
  fix st'
  assume h: "saved_actions (model st) = [] \<and> rewards (model st) = []
               \<and> run_once_on_dataset ext a ts st = Inr st'"
  then have r: "run_once_on_dataset ext a ts st = Inr st'" by simp
  from run_once_on_dataset_effect [OF r] obtain n
    where n: "ts \<noteq> [] \<longrightarrow> 0 < n"
      "length (saved_actions (model st')) = length (saved_actions (model st)) + n"
      "length (rewards (model st')) = length (rewards (model st)) + n"
    by blast
  from n h show "length (rewards (model st')) = length (saved_actions (model st'))" by simp
  show "rewards (model st') \<noteq> []" if "ts \<noteq> []"
    using n that by auto
next
  fix st'
  assume "run_episode ext a ts st = Inr st'"
  from run_episode_effect(2,3) [OF this]
  show "saved_actions (model st') = []" and "rewards (model st') = []" .
qed

theorem buffers_stay_paired_witness:
  "\<exists>st'. run_once_on_dataset stub_deps stub_args [0..<10000]
            (reset_environment_state stub_deps (initialize stub_state\<lparr>epoch := 1\<rparr>)) = Inr st'
     \<and> length (rewards (model st')) = length (saved_actions (model st'))
     \<and> rewards (model st') \<noteq> []"
proof -
  let ?st = "reset_environment_state stub_deps (initialize stub_state\<lparr>epoch := 1\<rparr>)"
  have r: "run_once_on_dataset stub_deps stub_args [0..<10000] ?st = Inr stub_episode_end"
    unfolding timesteps_Cons by (rule stub_run_once)
  have e: "saved_actions (model ?st) = [] \<and> rewards (model ?st) = []"
    by (simp add: reset_environment_state_effect initialize_def stub_state_def zero_policy_def)
  have ne: "[0..<10000] \<noteq> []" unfolding timesteps_Cons by simp
  from buffers_stay_paired [of stub_deps stub_args ?st 0 "[0..<10000]"] e r ne
  have "length (rewards (model stub_episode_end)) = length (saved_actions (model stub_episode_end))
          \<and> rewards (model stub_episode_end) \<noteq> []"
    by blast
  with r show ?thesis by blast
qed

text \<open>
  C8. When the run of the training driver returns, the number of episodes is at most
  the cap; the early-stop flag is set or the cap is reached; and the flag is set
  exactly when an episode has completed and the running reward is above the reward
  threshold. Once the flag is set no further episode starts. While it is not set and
  episodes remain, the next episode runs, and at its completion the flag becomes set
  exactly when the running reward is above the threshold.
\<close>

theorem training_termination:
  "(\<forall>st'. engine_run ext a ts max_epochs st = Inr st'
      \<longrightarrow> epoch st' \<le> nat max_epochs
        \<and> (should_terminate st' \<or> epoch st' = nat max_epochs)
        \<and> (should_terminate st'
             \<longleftrightarrow> 0 < epoch st' \<and> (\<exists>rr. running_reward st' = Some rr \<and> reward_threshold ext < rr)))
   \<and> (should_terminate st \<longrightarrow> run_epochs ext a ts n st = Inr st)
   \<and> (\<forall>st1. \<not> should_terminate st \<and> run_episode ext a ts st = Inr st1
        \<longrightarrow> run_epochs ext a ts (Suc n) st = run_epochs ext a ts n st1
          \<and> epoch st1 = Suc (epoch st)
          \<and> (should_terminate st1
               \<longleftrightarrow> (\<exists>rr. running_reward st1 = Some rr \<and> reward_threshold ext < rr)))"
proof (intro conjI allI impI)
  fix st'
  assume r: "engine_run ext a ts max_epochs st = Inr st'"
  define st0 where "st0 = initialize (st\<lparr>epoch := 0, should_terminate := False,
                       should_terminate_single_epoch := False\<rparr>)"
  from r have r0: "run_epochs ext a ts (nat max_epochs) st0 = Inr st'"
    by (simp add: engine_run_def st0_def)
  have i: "should_terminate st0 \<longleftrightarrow> 0 < epoch st0 \<and> exceeded ext st0"
    and e0: "epoch st0 = 0"
    by (simp_all add: st0_def initialize_def)
  note inv = run_epochs_invariant [OF r0 i]
  from inv e0 show "epoch st' \<le> nat max_epochs" by simp
  from inv e0 show "should_terminate st' \<or> epoch st' = nat max_epochs" by auto
  from inv show "should_terminate st'
     \<longleftrightarrow> 0 < epoch st' \<and> (\<exists>rr. running_reward st' = Some rr \<and> reward_threshold ext < rr)"
    by (auto simp: exceeded_def split: option.splits)
next
  assume "should_terminate st"
  then show "run_epochs ext a ts n st = Inr st" by (rule run_epochs_stops)
next
  fix st1
  assume h: "\<not> should_terminate st \<and> run_episode ext a ts st = Inr st1"
  then show "run_epochs ext a ts (Suc n) st = run_epochs ext a ts n st1" by simp
  from h have e: "run_episode ext a ts st = Inr st1" by simp
  from run_episode_effect(1) [OF e] show "epoch st1 = Suc (epoch st)" .
  from run_episode_effect(4) [OF e] h
  show "should_terminate st1
          \<longleftrightarrow> (\<exists>rr. running_reward st1 = Some rr \<and> reward_threshold ext < rr)"
    by auto
qed

theorem training_termination_witness:
  "\<exists>st'. engine_run stub_deps stub_args [0..<10000] 3 stub_state = Inr st'
     \<and> epoch st' = 1 \<and> should_terminate st'
     \<and> (\<exists>rr. running_reward st' = Some rr \<and> reward_threshold stub_deps < rr)"
proof -
  have r: "engine_run stub_deps stub_args [0..<10000] 3 stub_state = Inr stub_final"
    unfolding timesteps_Cons by (rule stub_engine_run)
  have f: "epoch stub_final = 1" "should_terminate stub_final"
    by (simp_all add: stub_final_def)
  from training_termination [of stub_deps stub_args "[0..<10000]" 3 stub_state] r f(2)
  have "\<exists>rr. running_reward stub_final = Some rr \<and> reward_threshold stub_deps < rr"
    by blast
  with r f show ?thesis by blast
qed

section \<open>The running reward\<close>












section \<open>Errors of the script\<close>

lemma linear_forward_error: "linear_forward l x = Inl e \<Longrightarrow> \<not> explicit e"
  by (auto simp: linear_forward_def split: if_splits)

lemma forward_error: "forward p x = Inl e \<Longrightarrow> \<not> explicit e"
  by (auto simp: forward_def split: sum.splits dest: linear_forward_error)

lemma select_action_error: "select_action ext p g obs = Inl e \<Longrightarrow> \<not> explicit e"
  by (auto simp: select_action_def
      split: sum.splits prod.splits if_splits dest!: forward_error)

lemma item_error: "item t = Inl e \<Longrightarrow> \<not> explicit e"
  by (auto simp: item_def split: list.splits)

lemma loss_loop_error: "loss_loop ps pl vl = Inl e \<Longrightarrow> \<not> explicit e"
proof (induction ps pl vl rule: loss_loop.induct)
  case (1 pl vl)
  then show ?case by simp
next
  case (2 sa r ps pl vl)
  show ?case
  proof (cases "item (value sa)")
    case (Inl e')
    with "2.prems" have "e = e'" by simp
    with Inl show ?thesis by (simp add: item_error)
  next
    case (Inr v)
    with "2.prems" "2.IH" [OF Inr refl] show ?thesis by (simp add: Let_def)
  qed
qed

lemma finish_episode_error:
  "finish_episode ext p opt \<gamma> eps = Inl e \<Longrightarrow> \<not> explicit e"
  unfolding finish_episode_def Let_def
  by (auto split: sum.splits prod.splits if_splits dest!: loss_loop_error)

lemma run_single_timestep_error:
  "run_single_timestep ext a st t = Inl e \<Longrightarrow> \<not> explicit e"
  unfolding run_single_timestep_def Let_def
  by (auto split: option.splits sum.splits prod.splits dest!: select_action_error)

lemma update_model_error: "update_model ext a st = Inl e \<Longrightarrow> \<not> explicit e"
  unfolding update_model_def Let_def
  by (auto split: option.splits sum.splits prod.splits dest!: finish_episode_error)

lemma should_finish_training_error:
  "should_finish_training ext st = Inl e \<Longrightarrow> \<not> explicit e"
  by (auto simp: should_finish_training_def split: option.splits)

lemma run_once_on_dataset_error:
  "run_once_on_dataset ext a ts st = Inl e \<Longrightarrow> \<not> explicit e"
proof (induction ts arbitrary: st)
  case Nil
  then show ?case by simp
next
  case (Cons t ts)
  show ?case
  proof (cases "run_single_timestep ext a st t")
    case (Inl e')
    with Cons.prems have "e = e'" by simp
    with Inl show ?thesis by (simp add: run_single_timestep_error)
  next
    case (Inr st1)
    with Cons.prems Cons.IH [of st1] show ?thesis by (simp split: if_splits)
  qed
qed

lemma run_episode_error: "run_episode ext a ts st = Inl e \<Longrightarrow> \<not> explicit e"
  unfolding run_episode_def Let_def
  by (auto split: sum.splits
      dest: run_once_on_dataset_error update_model_error should_finish_training_error)

lemma run_epochs_error: "run_epochs ext a ts n st = Inl e \<Longrightarrow> \<not> explicit e"
proof (induction n arbitrary: st)
  case 0
  then show ?case by simp
next
  case (Suc n)
  show ?case
  proof (cases "run_episode ext a ts st")
    case (Inl e')
    with Suc.prems have "e = e'" by (simp split: if_splits)
    with Inl show ?thesis by (simp add: run_episode_error)
  next
    case (Inr st1)
    with Suc.prems Suc.IH [of st1] show ?thesis by (simp split: if_splits)
  qed
qed

lemma main_error: "main ext e0 g0 a = Inl e \<Longrightarrow> \<not> explicit e"
  unfolding main_def engine_run_def Let_def
  by (auto split: prod.splits dest: run_epochs_error)

text \<open>
  C9. When gym cannot be imported the script's result is the \<open>RuntimeError\<close> that
  tells the user to install gym, raised before anything else runs. It is the only
  explicit error: whenever the script ends with an error that a \<^verbatim>\<open>raise\<close> statement
  of the script raised, gym could not be imported and the error is that one; no error
  of \<open>main\<close> is explicit (they come from torch or from an attribute read).
\<close>

theorem import_guard:
  "script False ext a = Inl (RuntimeError Script ''Please install opengym: pip install gym'')
   \<and> (\<forall>e. script gym_importable ext a = Inl e \<and> explicit e
        \<longrightarrow> \<not> gym_importable
          \<and> e = RuntimeError Script ''Please install opengym: pip install gym'')
   \<and> (\<forall>e. main ext e0 g0 a = Inl e \<longrightarrow> \<not> explicit e)"
proof (intro conjI allI impI)
  show "script False ext a = Inl (RuntimeError Script ''Please install opengym: pip install gym'')"
    by (simp add: script_def gym_missing_def)
next
  fix e
  assume h: "script gym_importable ext a = Inl e \<and> explicit e"
  show "\<not> gym_importable"
  proof
    assume "gym_importable"
    with h have "main ext (make_env ext (seed a)) (manual_seed ext (seed a)) a = Inl e"
      by (simp add: script_def)
    from main_error [OF this] h show False by simp
  qed
  with h show "e = RuntimeError Script ''Please install opengym: pip install gym''"
    by (simp add: script_def gym_missing_def)
next
  fix e
  assume "main ext e0 g0 a = Inl e"
  then show "\<not> explicit e" by (rule main_error)
qed

theorem import_guard_witness:
  "script False stub_deps stub_args
     = Inl (RuntimeError Script ''Please install opengym: pip install gym'')
   \<and> explicit (RuntimeError Script ''Please install opengym: pip install gym'')
   \<and> script True stub_deps stub_args = Inr stub_final"
  using import_guard [of stub_deps stub_args False "()" "()"] stub_script by simp

end
